theory Spec2Isabelle
  imports Complex_Main
begin

section \<open>JavaScript numbers\<close>

text \<open>
  A JavaScript number is modelled as an exact rational, or one of the three special values
  of IEEE 754. Arithmetic on finite values is exact: the rounding of binary floating point
  (and with it overflow to an infinity, and the sign of zero) is not part of the model.
  The special values follow the rules of the language.
\<close>

datatype jsnum = Fin rat | PInf | NInf | NaN

fun isFinite :: "jsnum \<Rightarrow> bool" where
  "isFinite (Fin r) = True"
| "isFinite PInf = False"
| "isFinite NInf = False"
| "isFinite NaN = False"

fun js_neg :: "jsnum \<Rightarrow> jsnum" where
  "js_neg (Fin r) = Fin (- r)"
| "js_neg PInf = NInf"
| "js_neg NInf = PInf"
| "js_neg NaN = NaN"

text \<open>\<open>a + b\<close>\<close>

fun js_add :: "jsnum \<Rightarrow> jsnum \<Rightarrow> jsnum" where
  "js_add (Fin a) (Fin b) = Fin (a + b)"
| "js_add NaN b = NaN"
| "js_add a NaN = NaN"
| "js_add PInf NInf = NaN"
| "js_add NInf PInf = NaN"
| "js_add PInf b = PInf"
| "js_add NInf b = NInf"
| "js_add (Fin a) PInf = PInf"
| "js_add (Fin a) NInf = NInf"

text \<open>\<open>a - b\<close>\<close>

definition js_sub :: "jsnum \<Rightarrow> jsnum \<Rightarrow> jsnum" where
  "js_sub a b = js_add a (js_neg b)"

text \<open>The sign of a number that is not NaN: \<open>-1\<close>, \<open>0\<close> or \<open>1\<close>.\<close>

fun js_sign :: "jsnum \<Rightarrow> rat" where
  "js_sign (Fin r) = sgn r"
| "js_sign PInf = 1"
| "js_sign NInf = - 1"
| "js_sign NaN = 0"

definition signed_inf :: "rat \<Rightarrow> jsnum" where
  "signed_inf sg = (if sg = 0 then NaN else if 0 < sg then PInf else NInf)"

text \<open>\<open>a * b\<close>: an infinity times zero is NaN.\<close>

fun js_mul :: "jsnum \<Rightarrow> jsnum \<Rightarrow> jsnum" where
  "js_mul (Fin a) (Fin b) = Fin (a * b)"
| "js_mul NaN b = NaN"
| "js_mul a NaN = NaN"
| "js_mul a b = signed_inf (js_sign a * js_sign b)"

text \<open>
  \<open>a / b\<close>: a finite non-zero number over zero is an infinity (of the sign of the
  numerator, zero being taken as positive), zero over zero and an infinity over an infinity
  are NaN, a finite number over an infinity is zero.
\<close>

fun js_div :: "jsnum \<Rightarrow> jsnum \<Rightarrow> jsnum" where
  "js_div (Fin a) (Fin b) = (if b = 0 then signed_inf (sgn a) else Fin (a / b))"
| "js_div NaN b = NaN"
| "js_div a NaN = NaN"
| "js_div (Fin a) b = Fin 0"
| "js_div a (Fin b) = signed_inf (js_sign a * (if b < 0 then - 1 else 1))"
| "js_div a b = NaN"

text \<open>\<open>a < b\<close> and \<open>a <= b\<close>: every comparison with NaN is false.\<close>

fun js_lt :: "jsnum \<Rightarrow> jsnum \<Rightarrow> bool" where
  "js_lt (Fin a) (Fin b) = (a < b)"
| "js_lt NaN b = False"
| "js_lt a NaN = False"
| "js_lt a PInf = (a \<noteq> PInf)"
| "js_lt NInf b = (b \<noteq> NInf)"
| "js_lt a b = False"

fun js_le :: "jsnum \<Rightarrow> jsnum \<Rightarrow> bool" where
  "js_le NaN b = False"
| "js_le a NaN = False"
| "js_le a b = (a = b \<or> js_lt a b)"

text \<open>\<open>a > b\<close>\<close>

definition js_gt :: "jsnum \<Rightarrow> jsnum \<Rightarrow> bool" where
  "js_gt a b = js_lt b a"

text \<open>\<open>Math.max(a, b)\<close>: NaN when either argument is.\<close>

fun Math_max :: "jsnum \<Rightarrow> jsnum \<Rightarrow> jsnum" where
  "Math_max NaN b = NaN"
| "Math_max a NaN = NaN"
| "Math_max a b = (if js_lt a b then b else a)"

text \<open>\<open>Math.floor(a)\<close>\<close>

fun Math_floor :: "jsnum \<Rightarrow> jsnum" where
  "Math_floor (Fin r) = Fin (of_int \<lfloor>r\<rfloor>)"
| "Math_floor a = a"

text \<open>\<open>Math.round(a)\<close>: the nearest integer, a tie going up, that is \<open>floor(a + 0.5)\<close>.\<close>

fun Math_round :: "jsnum \<Rightarrow> jsnum" where
  "Math_round (Fin r) = Fin (of_int \<lfloor>r + 1 / 2\<rfloor>)"
| "Math_round a = a"

text \<open>\<open>a || b\<close> on numbers: \<open>a\<close> unless it is falsy, that is zero or NaN.\<close>

definition js_or :: "jsnum \<Rightarrow> jsnum \<Rightarrow> jsnum" where
  "js_or a b = (if a = Fin 0 \<or> a = NaN then b else a)"


section \<open>Strings and numbers\<close>

text \<open>
  Strings are lists of 8-bit characters. \<open>Number(s)\<close> follows the grammar of
  StringNumericLiteral: white space is trimmed, the empty string is zero, then comes a
  binary, octal or hexadecimal integer with its prefix, or a decimal literal with an optional
  sign, fraction and exponent, or a signed \<open>Infinity\<close>; anything else is NaN. The value of
  a literal is exact.
\<close>

definition isWhiteSpace :: "char \<Rightarrow> bool" where
  "isWhiteSpace c \<longleftrightarrow>
     c \<in> {CHR 0x09, CHR 0x0A, CHR 0x0B, CHR 0x0C, CHR 0x0D, CHR '' '', CHR 0xA0}"

definition trimString :: "string \<Rightarrow> string" where
  "trimString s = rev (dropWhile isWhiteSpace (rev (dropWhile isWhiteSpace s)))"

definition charValue :: "char \<Rightarrow> nat option" where
  "charValue = map_of
     [(CHR ''0'', 0), (CHR ''1'', 1), (CHR ''2'', 2), (CHR ''3'', 3), (CHR ''4'', 4),
      (CHR ''5'', 5), (CHR ''6'', 6), (CHR ''7'', 7), (CHR ''8'', 8), (CHR ''9'', 9),
      (CHR ''a'', 10), (CHR ''b'', 11), (CHR ''c'', 12), (CHR ''d'', 13), (CHR ''e'', 14),
      (CHR ''f'', 15), (CHR ''A'', 10), (CHR ''B'', 11), (CHR ''C'', 12), (CHR ''D'', 13),
      (CHR ''E'', 14), (CHR ''F'', 15)]"

text \<open>The value of a run of digits in a radix; None when a character is not a digit of it.\<close>

fun digitsValue :: "nat \<Rightarrow> nat \<Rightarrow> string \<Rightarrow> nat option" where
  "digitsValue b acc [] = Some acc"
| "digitsValue b acc (c # cs) =
     (case charValue c of
        None \<Rightarrow> None
      | Some d \<Rightarrow> if d < b then digitsValue b (b * acc + d) cs else None)"

definition parseDigits :: "nat \<Rightarrow> string \<Rightarrow> nat option" where
  "parseDigits b s = (if s = [] then None else digitsValue b 0 s)"

text \<open>Cut a string at the first character that satisfies \<open>p\<close>, which is dropped.\<close>

definition splitAt :: "(char \<Rightarrow> bool) \<Rightarrow> string \<Rightarrow> string \<times> string option" where
  "splitAt p s =
     (takeWhile (\<lambda>c. \<not> p c) s,
      case dropWhile (\<lambda>c. \<not> p c) s of [] \<Rightarrow> None | c # r \<Rightarrow> Some r)"

definition parseExponent :: "string \<Rightarrow> int option" where
  "parseExponent s =
     (case s of
        [] \<Rightarrow> None
      | c # r \<Rightarrow>
          if c = CHR ''+'' then map_option int (parseDigits 10 r)
          else if c = CHR ''-'' then map_option (\<lambda>n. - int n) (parseDigits 10 r)
          else map_option int (parseDigits 10 s))"

definition parseMantissa :: "string \<Rightarrow> rat option" where
  "parseMantissa m =
     (case splitAt (\<lambda>c. c = CHR ''.'') m of
        (ip, None) \<Rightarrow> map_option of_nat (parseDigits 10 ip)
      | (ip, Some fp) \<Rightarrow>
          if ip = [] \<and> fp = [] then None
          else (case (digitsValue 10 0 ip, digitsValue 10 0 fp) of
                  (Some i, Some f) \<Rightarrow> Some (of_nat i + of_nat f / 10 ^ length fp)
                | _ \<Rightarrow> None))"

definition scale10 :: "rat \<Rightarrow> int \<Rightarrow> rat" where
  "scale10 r e = (if 0 \<le> e then r * 10 ^ nat e else r / 10 ^ nat (- e))"

definition parseUnsignedDecimal :: "string \<Rightarrow> jsnum" where
  "parseUnsignedDecimal s =
     (if s = ''Infinity'' then PInf
      else case splitAt (\<lambda>c. c = CHR ''e'' \<or> c = CHR ''E'') s of
             (m, None) \<Rightarrow> (case parseMantissa m of Some r \<Rightarrow> Fin r | None \<Rightarrow> NaN)
           | (m, Some x) \<Rightarrow>
               (case (parseMantissa m, parseExponent x) of
                  (Some r, Some e) \<Rightarrow> Fin (scale10 r e)
                | _ \<Rightarrow> NaN))"

definition parseDecimal :: "string \<Rightarrow> jsnum" where
  "parseDecimal s =
     (case s of
        [] \<Rightarrow> NaN
      | c # r \<Rightarrow>
          if c = CHR ''+'' then parseUnsignedDecimal r
          else if c = CHR ''-'' then js_neg (parseUnsignedDecimal r)
          else parseUnsignedDecimal s)"

text \<open>The radix of a prefixed integer literal: \<open>0b\<close>, \<open>0o\<close>, \<open>0x\<close> in either case.\<close>

definition prefixRadix :: "string \<Rightarrow> nat option" where
  "prefixRadix s =
     (case s of
        c # d # r \<Rightarrow>
          if c \<noteq> CHR ''0'' then None
          else if d = CHR ''b'' \<or> d = CHR ''B'' then Some 2
          else if d = CHR ''o'' \<or> d = CHR ''O'' then Some 8
          else if d = CHR ''x'' \<or> d = CHR ''X'' then Some 16
          else None
      | _ \<Rightarrow> None)"

definition Number_js :: "string \<Rightarrow> jsnum" where
  "Number_js s =
     (let t = trimString s in
      if t = [] then Fin 0
      else case prefixRadix t of
             Some b \<Rightarrow> (case parseDigits b (drop 2 t) of Some n \<Rightarrow> Fin (of_nat n) | None \<Rightarrow> NaN)
           | None \<Rightarrow> parseDecimal t)"

text \<open>
  \<open>String(n)\<close> in decimal notation: the digits of the integer part, and for a number that is
  not an integer up to twenty digits of its fraction. The exponent notation that JavaScript
  uses from \<open>1e21\<close> on and below \<open>1e-6\<close> is not modelled. The program converts integers only.
\<close>

definition digitChar :: "nat \<Rightarrow> char" where
  "digitChar d = ''0123456789'' ! d"

fun natDigits :: "nat \<Rightarrow> string" where
  "natDigits n = (if n < 10 then [digitChar n] else natDigits (n div 10) @ [digitChar (n mod 10)])"

declare natDigits.simps [simp del]

fun fracDigits :: "nat \<Rightarrow> rat \<Rightarrow> string" where
  "fracDigits 0 r = []"
| "fracDigits (Suc k) r =
     (if r = 0 then []
      else digitChar (nat \<lfloor>10 * r\<rfloor>) # fracDigits k (10 * r - of_int \<lfloor>10 * r\<rfloor>))"

fun String_js :: "jsnum \<Rightarrow> string" where
  "String_js (Fin r) =
     (if r < 0 then ''-'' else []) @ natDigits (nat \<lfloor>\<bar>r\<bar>\<rfloor>) @
     (if of_int \<lfloor>r\<rfloor> = r then [] else CHR ''.'' # fracDigits 20 (\<bar>r\<bar> - of_int \<lfloor>\<bar>r\<bar>\<rfloor>))"
| "String_js PInf = ''Infinity''"
| "String_js NInf = ''-Infinity''"
| "String_js NaN = ''NaN''"

text \<open>
  \<open>n.toFixed(2)\<close>: the magnitude rounded to hundredths, a tie going up, written with
  exactly two decimals.
\<close>

fun toFixed2 :: "jsnum \<Rightarrow> string" where
  "toFixed2 (Fin x) =
     (let n = nat \<lfloor>\<bar>x\<bar> * 100 + 1 / 2\<rfloor> in
      (if x < 0 then ''-'' else []) @ natDigits (n div 100) @
      [CHR ''.'', digitChar (n mod 100 div 10), digitChar (n mod 10)])"
| "toFixed2 PInf = ''Infinity''"
| "toFixed2 NInf = ''-Infinity''"
| "toFixed2 NaN = ''NaN''"

text \<open>The values an argument of \<open>coerceNumber\<close> can take, and \<open>Number(v)\<close> on them.\<close>

datatype jsvalue = JString string | JNull | JUndefined

fun Number_of :: "jsvalue \<Rightarrow> jsnum" where
  "Number_of (JString s) = Number_js s"
| "Number_of JNull = Fin 0"
| "Number_of JUndefined = NaN"

section \<open>The tip calculator\<close>

subsection \<open>Helpers of \<open>App.js\<close>\<close>

definition TIP_PRESETS :: "jsnum list" where
  "TIP_PRESETS = [Fin 10, Fin 15, Fin 18, Fin 20]"

datatype ROUNDING_MODES = NONE | TIP | TOTAL

definition coerceNumber :: "jsvalue \<Rightarrow> jsnum" where
  "coerceNumber v =
     (if v = JString [] \<or> v = JNull \<or> v = JUndefined then Fin 0
      else let n = Number_of v in if isFinite n then n else Fin 0)"

definition formatCurrency :: "jsnum \<Rightarrow> string" where
  "formatCurrency amount =
     (let safe = (if isFinite amount then amount else Fin 0) in ''$'' @ toFixed2 safe)"

definition roundToWholeCurrency :: "jsnum \<Rightarrow> jsnum" where
  "roundToWholeCurrency amount =
     (let safe = (if isFinite amount then amount else Fin 0) in Math_round safe)"

subsection \<open>The state of \<open>App\<close> and the values derived from it\<close>

text \<open>
  The component keeps five pieces of state and one ref. Every other value is recomputed from
  them at each render, so each is a function of the state.
\<close>

record app_state =
  billInput :: string
  selectedTip :: jsnum
  customTipInput :: string
  lastPresetTipRef :: jsnum
  peopleInput :: string
  roundingMode :: ROUNDING_MODES

definition initial_state :: app_state where
  "initial_state =
     \<lparr>billInput = [], selectedTip = Fin 15, customTipInput = [], lastPresetTipRef = Fin 15,
      peopleInput = ''1'', roundingMode = NONE\<rparr>"

definition billRaw :: "app_state \<Rightarrow> jsnum" where
  "billRaw s = coerceNumber (JString (billInput s))"

definition customTipRaw :: "app_state \<Rightarrow> jsnum" where
  "customTipRaw s = coerceNumber (JString (customTipInput s))"

definition peopleRaw :: "app_state \<Rightarrow> jsnum" where
  "peopleRaw s = coerceNumber (JString (peopleInput s))"

definition isCustomActive :: "app_state \<Rightarrow> bool" where
  "isCustomActive s \<longleftrightarrow> customTipInput s \<noteq> []"

definition activeTipPercent :: "app_state \<Rightarrow> jsnum" where
  "activeTipPercent s = (if isCustomActive s then customTipRaw s else selectedTip s)"

definition billForCalc :: "app_state \<Rightarrow> jsnum" where
  "billForCalc s = Math_max (Fin 0) (billRaw s)"

definition tipPercentForCalc :: "app_state \<Rightarrow> jsnum" where
  "tipPercentForCalc s = Math_max (Fin 0) (activeTipPercent s)"

definition baseTipAmount :: "app_state \<Rightarrow> jsnum" where
  "baseTipAmount s = js_mul (billForCalc s) (js_div (tipPercentForCalc s) (Fin 100))"

definition baseTotalAmount :: "app_state \<Rightarrow> jsnum" where
  "baseTotalAmount s = js_add (billForCalc s) (baseTipAmount s)"

definition billHasError :: "app_state \<Rightarrow> bool" where
  "billHasError s \<longleftrightarrow> js_lt (billRaw s) (Fin 0)"

definition tipHasError :: "app_state \<Rightarrow> bool" where
  "tipHasError s \<longleftrightarrow> js_lt (activeTipPercent s) (Fin 0)"

definition peopleClamped :: "app_state \<Rightarrow> jsnum" where
  "peopleClamped s = Math_max (Fin 1) (Math_floor (js_or (peopleRaw s) (Fin 0)))"

definition peopleHasError :: "app_state \<Rightarrow> bool" where
  "peopleHasError s \<longleftrightarrow> js_lt (peopleRaw s) (Fin 1)"

text \<open>The memo that yields the pair \<open>{ tipAmount, totalAmount }\<close>.\<close>

definition roundedAmounts :: "app_state \<Rightarrow> jsnum \<times> jsnum" where
  "roundedAmounts s =
     (if roundingMode s = TIP then
        let roundedTip = roundToWholeCurrency (baseTipAmount s)
        in (roundedTip, js_add (billForCalc s) roundedTip)
      else if roundingMode s = TOTAL then
        let roundedTotal = roundToWholeCurrency (baseTotalAmount s);
            impliedTip = Math_max (Fin 0) (js_sub roundedTotal (billForCalc s))
        in (impliedTip, js_add (billForCalc s) impliedTip)
      else (baseTipAmount s, baseTotalAmount s))"

definition tipAmount :: "app_state \<Rightarrow> jsnum" where
  "tipAmount s = fst (roundedAmounts s)"

definition totalAmount :: "app_state \<Rightarrow> jsnum" where
  "totalAmount s = snd (roundedAmounts s)"

definition perPersonTip :: "app_state \<Rightarrow> jsnum" where
  "perPersonTip s = js_div (tipAmount s) (peopleClamped s)"

definition perPersonTotal :: "app_state \<Rightarrow> jsnum" where
  "perPersonTotal s = js_div (totalAmount s) (peopleClamped s)"

text \<open>
  The rows of the results panel, each a label and a value: the per-person rows are rendered
  under the condition \<open>peopleClamped > 1\<close>.
\<close>

definition resultsPanel :: "app_state \<Rightarrow> (string \<times> string) list" where
  "resultsPanel s =
     [(''Tip Amount'', formatCurrency (tipAmount s)),
      (''Total'', formatCurrency (totalAmount s))] @
     (if js_gt (peopleClamped s) (Fin 1) then
        [(''Tip / person ('' @ String_js (peopleClamped s) @ '')'',
          formatCurrency (perPersonTip s)),
         (''Total / person ('' @ String_js (peopleClamped s) @ '')'',
          formatCurrency (perPersonTotal s))]
      else [])"

subsection \<open>The event handlers\<close>

text \<open>Each handler takes the value carried by the event and the state, and returns the new state.\<close>

definition onBillChange :: "string \<Rightarrow> app_state \<Rightarrow> app_state" where
  "onBillChange v s = s\<lparr>billInput := v\<rparr>"

definition onSelectPreset :: "jsnum \<Rightarrow> app_state \<Rightarrow> app_state" where
  "onSelectPreset pct s = s\<lparr>selectedTip := pct, lastPresetTipRef := pct, customTipInput := []\<rparr>"

definition onCustomTipChange :: "string \<Rightarrow> app_state \<Rightarrow> app_state" where
  "onCustomTipChange next s =
     (let s' = s\<lparr>customTipInput := next\<rparr>
      in if next = [] then s'\<lparr>selectedTip := lastPresetTipRef s\<rparr> else s')"

text \<open>\<open>raw\<close> is \<open>e?.target?.value\<close>, undefined when the event has no target.\<close>

definition onPeopleChange :: "jsvalue \<Rightarrow> app_state \<Rightarrow> app_state" where
  "onPeopleChange raw s =
     (let n = Number_of raw in
      if \<not> isFinite n \<or> js_le n (Fin 0) then s\<lparr>peopleInput := ''1''\<rparr>
      else let clampedInt = Math_max (Fin 1) (Math_floor n)
           in s\<lparr>peopleInput := String_js clampedInt\<rparr>)"

definition onPeopleBlur :: "jsvalue \<Rightarrow> app_state \<Rightarrow> app_state" where
  "onPeopleBlur raw s =
     (let n = Number_of raw in
      if \<not> isFinite n \<or> js_lt n (Fin 1) then s\<lparr>peopleInput := ''1''\<rparr> else s)"

definition onRoundingModeChange :: "ROUNDING_MODES \<Rightarrow> app_state \<Rightarrow> app_state" where
  "onRoundingModeChange m s = s\<lparr>roundingMode := m\<rparr>"

text \<open>
  The events of the form. A preset button exists for each member of \<open>TIP_PRESETS\<close> only,
  and the people field is a controlled input: when it loses focus its value is the stored
  text.
\<close>

datatype event =
    BillChange string
  | SelectPreset jsnum
  | CustomTipChange string
  | PeopleChange string
  | PeopleBlur
  | RoundingModeChange ROUNDING_MODES

fun handle :: "app_state \<Rightarrow> event \<Rightarrow> app_state" where
  "handle s (BillChange v) = onBillChange v s"
| "handle s (SelectPreset pct) = onSelectPreset pct s"
| "handle s (CustomTipChange v) = onCustomTipChange v s"
| "handle s (PeopleChange v) = onPeopleChange (JString v) s"
| "handle s PeopleBlur = onPeopleBlur (JString (peopleInput s)) s"
| "handle s (RoundingModeChange m) = onRoundingModeChange m s"

fun valid_event :: "event \<Rightarrow> bool" where
  "valid_event (SelectPreset pct) = (pct \<in> set TIP_PRESETS)"
| "valid_event e = True"

text \<open>The state after a sequence of events, from the initial render.\<close>

definition run :: "event list \<Rightarrow> app_state" where
  "run es = foldl handle initial_state es"

text \<open>
  The preset most recently selected in a sequence of events, the initial selection when
  there is none: what the text calls the last preset.
\<close>

definition lastPreset :: "event list \<Rightarrow> jsnum" where
  "lastPreset es =
     foldl (\<lambda>p e. case e of SelectPreset pct \<Rightarrow> pct | _ \<Rightarrow> p) (Fin 15) es"

text \<open>A preset button is shown pressed when custom is inactive and it is the selected one.\<close>

definition pressed :: "app_state \<Rightarrow> jsnum \<Rightarrow> bool" where
  "pressed s pct \<longleftrightarrow> \<not> isCustomActive s \<and> selectedTip s = pct"

text \<open>
  States used as concrete inputs below: the given texts in the three fields, the default
  preset of 15 percent, and the given rounding mode.
\<close>

definition example_state :: "string \<Rightarrow> string \<Rightarrow> string \<Rightarrow> ROUNDING_MODES \<Rightarrow> app_state" where
  "example_state bill custom people mode =
     \<lparr>billInput = bill, selectedTip = Fin 15, customTipInput = custom, lastPresetTipRef = Fin 15,
      peopleInput = people, roundingMode = mode\<rparr>"

section \<open>Properties of the number model\<close>

lemma Math_max_Fin [simp]: "Math_max (Fin a) (Fin b) = Fin (max a b)"
  by (simp add: max_def)

lemma js_le_Fin: "js_le (Fin a) (Fin b) = (a \<le> b)"
  by auto

lemma clamp_floor: "Math_max (Fin 1) (Math_floor (Fin r)) = Fin (of_int (max 1 \<lfloor>r\<rfloor>))"
  by (simp add: of_int_max)

lemma round_nonneg: "0 \<le> (x::rat) \<Longrightarrow> 0 \<le> \<lfloor>x + 1 / 2\<rfloor>"
  by simp

lemma floor_numeral_div: "\<lfloor>numeral a / numeral b :: rat\<rfloor> = numeral a div numeral b"
  using floor_divide_of_int_eq [of "numeral a" "numeral b", where ?'a = rat] by simp

text \<open>The facts that evaluate \<open>formatCurrency\<close> on a numeral.\<close>

lemmas formatCurrency_eval =
  formatCurrency_def Let_def natDigits.simps digitChar_def floor_numeral_div

lemma roundToWholeCurrency_Fin [simp]:
  "roundToWholeCurrency (Fin r) = Fin (of_int (round r))"
  by (simp add: roundToWholeCurrency_def round_def)

lemma roundToWholeCurrency_finite: "\<exists>k. roundToWholeCurrency a = Fin (of_int k)"
  by (cases a) (simp_all add: roundToWholeCurrency_def)

lemma coerceNumber_finite: "\<exists>r. coerceNumber v = Fin r"
  by (cases "Number_of v") (simp_all add: coerceNumber_def Let_def)

subsection \<open>Decimal numerals are read back as the number they denote\<close>

lemma digit_cases: "n < 10 \<Longrightarrow> n \<in> {0, 1, 2, 3, 4, 5, 6, 7, 8, 9::nat}"
  by auto

lemma charValue_digitChar: "n < 10 \<Longrightarrow> charValue (digitChar n) = Some n"
  by (drule digit_cases) (auto simp: charValue_def digitChar_def)

lemma digitChar_in_digits: "n < 10 \<Longrightarrow> digitChar n \<in> set ''0123456789''"
  by (drule digit_cases) (auto simp: digitChar_def)

lemma natDigits_chars: "set (natDigits n) \<subseteq> set ''0123456789''"
proof (induction n rule: natDigits.induct)
  case (1 n)
  show ?case
  proof (cases "n < 10")
    case True
    then show ?thesis
      using digitChar_in_digits [of n] by (subst natDigits.simps) simp
  next
    case False
    have "n mod 10 < 10" by simp
    then have "digitChar (n mod 10) \<in> set ''0123456789''"
      by (rule digitChar_in_digits)
    with False 1 show ?thesis
      by (subst natDigits.simps) simp
  qed
qed

lemma natDigits_nonempty: "natDigits n \<noteq> []"
  by (subst natDigits.simps) simp

lemma natDigits_1: "natDigits (Suc 0) = ''1''"
  by (subst natDigits.simps) (simp add: digitChar_def)

lemma digitsValue_append:
  "digitsValue b acc (xs @ ys) =
     (case digitsValue b acc xs of None \<Rightarrow> None | Some a \<Rightarrow> digitsValue b a ys)"
  by (induction xs arbitrary: acc) (auto split: option.splits)

lemma digitsValue_natDigits: "digitsValue 10 0 (natDigits n) = Some n"
proof (induction n rule: natDigits.induct)
  case (1 n)
  show ?case
  proof (cases "n < 10")
    case True
    then show ?thesis
      by (subst natDigits.simps) (simp add: charValue_digitChar)
  next
    case False
    have "charValue (digitChar (n mod 10)) = Some (n mod 10)"
      by (rule charValue_digitChar) simp
    with False 1 show ?thesis
      by (subst natDigits.simps) (simp add: digitsValue_append)
  qed
qed

lemma dropWhile_hd: "s \<noteq> [] \<Longrightarrow> \<not> P (hd s) \<Longrightarrow> dropWhile P s = s"
  by (cases s) auto

lemma takeWhile_all: "\<forall>c\<in>set s. P c \<Longrightarrow> takeWhile P s = s"
  by (induction s) auto

lemma dropWhile_all: "\<forall>c\<in>set s. P c \<Longrightarrow> dropWhile P s = []"
  by (induction s) auto

lemma splitAt_none: "\<forall>c\<in>set s. \<not> p c \<Longrightarrow> splitAt p s = (s, None)"
  by (simp add: splitAt_def takeWhile_all dropWhile_all)

lemma trimString_id:
  assumes "s \<noteq> []" and "\<not> isWhiteSpace (hd s)" and "\<not> isWhiteSpace (last s)"
  shows "trimString s = s"
proof -
  have "dropWhile isWhiteSpace (rev s) = rev s"
    using assms(1,3) by (intro dropWhile_hd) (simp_all add: hd_rev)
  then show ?thesis
    using assms(1,2) by (simp add: trimString_def dropWhile_hd)
qed

lemma digit_not_space: "c \<in> set ''0123456789'' \<Longrightarrow> \<not> isWhiteSpace c"
  by (auto simp: isWhiteSpace_def)

lemma trimString_natDigits: "trimString (natDigits n) = natDigits n"
proof (rule trimString_id)
  show "natDigits n \<noteq> []" by (rule natDigits_nonempty)
  have "hd (natDigits n) \<in> set ''0123456789''"
    using natDigits_chars [of n] hd_in_set [OF natDigits_nonempty [of n]] by blast
  then show "\<not> isWhiteSpace (hd (natDigits n))" by (rule digit_not_space)
  have "last (natDigits n) \<in> set ''0123456789''"
    using natDigits_chars [of n] last_in_set [OF natDigits_nonempty [of n]] by blast
  then show "\<not> isWhiteSpace (last (natDigits n))" by (rule digit_not_space)
qed

lemma prefixRadix_digits:
  assumes "set s \<subseteq> set ''0123456789''"
  shows "prefixRadix s = None"
proof (cases s)
  case Nil
  then show ?thesis by (simp add: prefixRadix_def)
next
  case (Cons c t)
  show ?thesis
  proof (cases t)
    case Nil
    with Cons show ?thesis by (simp add: prefixRadix_def)
  next
    case (Cons d r)
    with assms \<open>s = c # t\<close> have "d \<in> set ''0123456789''" by simp
    then have "d \<notin> {CHR ''b'', CHR ''B'', CHR ''o'', CHR ''O'', CHR ''x'', CHR ''X''}"
      by auto
    with Cons \<open>s = c # t\<close> show ?thesis by (simp add: prefixRadix_def)
  qed
qed

lemma parseUnsignedDecimal_natDigits: "parseUnsignedDecimal (natDigits n) = Fin (of_nat n)"
proof -
  have e: "\<forall>c\<in>set (natDigits n). \<not> (c = CHR ''e'' \<or> c = CHR ''E'')"
    using natDigits_chars [of n] by auto
  have d: "\<forall>c\<in>set (natDigits n). \<not> (c = CHR ''.'')"
    using natDigits_chars [of n] by auto
  have i: "natDigits n \<noteq> ''Infinity''"
    using natDigits_chars [of n] by auto
  have "parseMantissa (natDigits n) = Some (of_nat n)"
    by (simp add: parseMantissa_def splitAt_none [OF d] parseDigits_def natDigits_nonempty
        digitsValue_natDigits)
  then show ?thesis
    using i by (simp add: parseUnsignedDecimal_def splitAt_none [OF e])
qed

lemma Number_js_natDigits: "Number_js (natDigits n) = Fin (of_nat n)"
proof -
  obtain c r where s: "natDigits n = c # r"
    using natDigits_nonempty [of n] by (cases "natDigits n") auto
  with natDigits_chars [of n] have "c \<in> set ''0123456789''" by simp
  then have "c \<noteq> CHR ''+'' \<and> c \<noteq> CHR ''-''" by auto
  then have "parseDecimal (natDigits n) = parseUnsignedDecimal (natDigits n)"
    by (simp add: parseDecimal_def s)
  then show ?thesis
    using natDigits_nonempty [of n]
    by (simp add: Number_js_def Let_def trimString_natDigits
        prefixRadix_digits [OF natDigits_chars] parseUnsignedDecimal_natDigits)
qed


lemma String_js_int: "0 \<le> k \<Longrightarrow> String_js (Fin (of_int k)) = natDigits (nat k)"
  by simp

lemma String_js_nat: "String_js (Fin (of_nat k)) = natDigits k"
  by simp

section \<open>Properties of the derived values\<close>

lemma billRaw_finite: "\<exists>r. billRaw s = Fin r"
  unfolding billRaw_def by (rule coerceNumber_finite)

lemma peopleRaw_finite: "\<exists>r. peopleRaw s = Fin r"
  unfolding peopleRaw_def by (rule coerceNumber_finite)

lemma billForCalc_nonneg: "\<exists>b. billForCalc s = Fin b \<and> 0 \<le> b"
proof -
  obtain r where "billRaw s = Fin r"
    using billRaw_finite by blast
  then show ?thesis by (simp add: billForCalc_def)
qed

lemma billForCalc_Fin_nonneg: "billForCalc s = Fin b \<Longrightarrow> 0 \<le> b"
  using billForCalc_nonneg [of s] by auto

lemma tipPercentForCalc_Fin_nonneg: "tipPercentForCalc s = Fin p \<Longrightarrow> 0 \<le> p"
  by (cases "activeTipPercent s") (auto simp: tipPercentForCalc_def split: if_splits)

lemma presets_finite: "pct \<in> set TIP_PRESETS \<Longrightarrow> isFinite pct"
  by (auto simp: TIP_PRESETS_def)

lemma tipPercentForCalc_nonneg:
  assumes "isFinite (selectedTip s)"
  shows "\<exists>p. tipPercentForCalc s = Fin p \<and> 0 \<le> p"
proof -
  obtain c where "customTipRaw s = Fin c"
    unfolding customTipRaw_def using coerceNumber_finite by blast
  moreover obtain t where "selectedTip s = Fin t"
    using assms by (cases "selectedTip s") simp_all
  ultimately show ?thesis
    by (simp add: tipPercentForCalc_def activeTipPercent_def)
qed

lemma baseTipAmount_Fin:
  "billForCalc s = Fin b \<Longrightarrow> tipPercentForCalc s = Fin p \<Longrightarrow> baseTipAmount s = Fin (b * p / 100)"
  by (simp add: baseTipAmount_def)

lemma baseTotalAmount_Fin:
  "billForCalc s = Fin b \<Longrightarrow> tipPercentForCalc s = Fin p
   \<Longrightarrow> baseTotalAmount s = Fin (b + b * p / 100)"
  by (simp add: baseTotalAmount_def baseTipAmount_Fin)

lemma peopleClamped_int: "\<exists>k. 1 \<le> k \<and> peopleClamped s = Fin (of_int k)"
proof -
  obtain r where r: "peopleRaw s = Fin r"
    using peopleRaw_finite by blast
  have "js_or (Fin r) (Fin 0) = Fin r"
    by (simp add: js_or_def)
  then have "peopleClamped s = Fin (of_int (max 1 \<lfloor>r\<rfloor>))"
    by (simp add: peopleClamped_def r clamp_floor
        del: Math_max.simps Math_floor.simps Math_max_Fin)
  then show ?thesis
    by (intro exI [of _ "max 1 \<lfloor>r\<rfloor>"]) simp
qed

lemma amounts_Fin:
  assumes "billForCalc s = Fin b" and "tipPercentForCalc s = Fin p" and "0 \<le> b" and "0 \<le> p"
  shows "\<exists>t. tipAmount s = Fin t \<and> 0 \<le> t \<and> totalAmount s = Fin (b + t)"
proof (cases "roundingMode s")
  case NONE
  with assms(1,2) have "tipAmount s = Fin (b * p / 100)" "totalAmount s = Fin (b + b * p / 100)"
    by (simp_all add: tipAmount_def totalAmount_def roundedAmounts_def baseTipAmount_Fin
        baseTotalAmount_Fin)
  moreover have "0 \<le> b * p / 100" using assms(3,4) by simp
  ultimately show ?thesis by blast
next
  case TIP
  have "0 \<le> b * p / 100" using assms(3,4) by simp
  then have "0 \<le> \<lfloor>b * p / 100 + 1 / 2\<rfloor>" by (rule round_nonneg)
  with TIP assms(1,2) show ?thesis
    by (simp add: tipAmount_def totalAmount_def roundedAmounts_def baseTipAmount_Fin round_def)
next
  case TOTAL
  with assms(1,2) show ?thesis
    by (simp add: tipAmount_def totalAmount_def roundedAmounts_def baseTotalAmount_Fin
        js_sub_def Let_def)
qed

lemma derived_Fin:
  assumes "isFinite (selectedTip s)"
  shows "\<exists>t T k. 0 \<le> t \<and> 0 \<le> T \<and> 1 \<le> k \<and> tipAmount s = Fin t \<and> totalAmount s = Fin T
    \<and> peopleClamped s = Fin (of_int k)
    \<and> perPersonTip s = Fin (t / of_int k) \<and> perPersonTotal s = Fin (T / of_int k)"
proof -
  obtain b where b: "billForCalc s = Fin b" "0 \<le> b"
    using billForCalc_nonneg by blast
  obtain p where p: "tipPercentForCalc s = Fin p" "0 \<le> p"
    using tipPercentForCalc_nonneg [OF assms] by blast
  obtain t where t: "tipAmount s = Fin t" "0 \<le> t" "totalAmount s = Fin (b + t)"
    using amounts_Fin [OF b(1) p(1) b(2) p(2)] by blast
  obtain k where k: "1 \<le> k" "peopleClamped s = Fin (of_int k)"
    using peopleClamped_int by blast
  have "perPersonTip s = Fin (t / of_int k)" "perPersonTotal s = Fin ((b + t) / of_int k)"
    using t k by (simp_all add: perPersonTip_def perPersonTotal_def)
  with b t k show ?thesis
    by (intro exI [of _ t] exI [of _ "b + t"] exI [of _ k]) simp
qed

subsection \<open>The people field\<close>

lemma onPeopleChange_peopleInput:
  "peopleInput (onPeopleChange (JString raw) s) =
     (case Number_js raw of
        Fin r \<Rightarrow> if r \<le> 0 then ''1'' else String_js (Fin (of_int (max 1 \<lfloor>r\<rfloor>)))
      | _ \<Rightarrow> ''1'')"
  by (cases "Number_js raw")
    (simp_all add: onPeopleChange_def Let_def clamp_floor
      del: Math_max.simps Math_floor.simps String_js.simps Math_max_Fin)

lemma onPeopleChange_stored:
  "\<exists>k. 1 \<le> k \<and> peopleInput (onPeopleChange (JString raw) s) = natDigits k"
proof -
  have one: "\<exists>k. 1 \<le> k \<and> ''1'' = natDigits k"
    by (intro exI [of _ "Suc 0"]) (simp add: natDigits_1)
  show ?thesis
  proof (cases "Number_js raw")
    case (Fin r)
    show ?thesis
    proof (cases "r \<le> 0")
      case True
      with Fin one show ?thesis
        by (simp add: onPeopleChange_peopleInput)
    next
      case False
      with Fin have "peopleInput (onPeopleChange (JString raw) s) = natDigits (nat (max 1 \<lfloor>r\<rfloor>))"
        by (simp add: onPeopleChange_peopleInput String_js_int del: String_js.simps)
      moreover have "1 \<le> nat (max 1 \<lfloor>r\<rfloor>)" by simp
      ultimately show ?thesis by blast
    qed
  next
    case PInf
    with one show ?thesis by (simp add: onPeopleChange_peopleInput)
  next
    case NInf
    with one show ?thesis by (simp add: onPeopleChange_peopleInput)
  next
    case NaN
    with one show ?thesis by (simp add: onPeopleChange_peopleInput)
  qed
qed

lemma onPeopleBlur_natDigits:
  assumes "1 \<le> k" and "peopleInput s = natDigits k"
  shows "onPeopleBlur (JString (peopleInput s)) s = s"
  using assms by (simp add: onPeopleBlur_def Number_js_natDigits)

lemma onPeopleChange_natDigits:
  assumes "1 \<le> k" and "peopleInput s = natDigits k"
  shows "onPeopleChange (JString (peopleInput s)) s = s"
proof -
  have "nat (max 1 \<lfloor>rat_of_nat k\<rfloor>) = k"
    using assms(1) by simp
  then have "peopleInput (onPeopleChange (JString (peopleInput s)) s) = peopleInput s"
    using assms
    by (simp add: onPeopleChange_peopleInput Number_js_natDigits String_js_nat
        del: String_js.simps)
  moreover have "onPeopleChange (JString (peopleInput s)) s =
      s\<lparr>peopleInput := peopleInput (onPeopleChange (JString (peopleInput s)) s)\<rparr>"
    by (simp add: onPeopleChange_def Let_def)
  ultimately show ?thesis by simp
qed

subsection \<open>Sequences of events\<close>

lemma run_snoc: "run (es @ [e]) = handle (run es) e"
  by (simp add: run_def)

lemma lastPreset_snoc:
  "lastPreset (es @ [e]) = (case e of SelectPreset pct \<Rightarrow> pct | _ \<Rightarrow> lastPreset es)"
  by (cases e) (simp_all add: lastPreset_def)

lemma handle_lastPresetTipRef:
  "lastPresetTipRef (handle s e) = (case e of SelectPreset pct \<Rightarrow> pct | _ \<Rightarrow> lastPresetTipRef s)"
  by (cases e)
    (simp_all add: onBillChange_def onSelectPreset_def onCustomTipChange_def onPeopleChange_def
      onPeopleBlur_def onRoundingModeChange_def Let_def)

lemma handle_selectedTip:
  "selectedTip (handle s e) =
     (case e of
        SelectPreset pct \<Rightarrow> pct
      | CustomTipChange v \<Rightarrow> if v = [] then lastPresetTipRef s else selectedTip s
      | _ \<Rightarrow> selectedTip s)"
  by (cases e)
    (simp_all add: onBillChange_def onSelectPreset_def onCustomTipChange_def onPeopleChange_def
      onPeopleBlur_def onRoundingModeChange_def Let_def)

lemma run_memory: "lastPresetTipRef (run es) = lastPreset es \<and> selectedTip (run es) = lastPreset es"
proof (induction es rule: rev_induct)
  case Nil
  show ?case by (simp add: run_def lastPreset_def initial_state_def)
next
  case (snoc e es)
  then show ?case
    by (simp add: run_snoc lastPreset_snoc handle_lastPresetTipRef handle_selectedTip
        split: event.splits)
qed

lemma lastPreset_valid:
  "\<forall>e\<in>set es. valid_event e \<Longrightarrow> lastPreset es \<in> set TIP_PRESETS"
proof (induction es rule: rev_induct)
  case Nil
  show ?case by (simp add: lastPreset_def TIP_PRESETS_def)
next
  case (snoc e es)
  then show ?case
    by (cases e) (simp_all add: lastPreset_snoc)
qed

subsection \<open>The validation flags\<close>

lemma js_gt_int: "js_gt (Fin (of_int k)) (Fin 1) = (1 < k)"
  by (simp add: js_gt_def)

lemma peopleHasError_iff:
  "peopleHasError s \<longleftrightarrow> \<not> (\<exists>r. Number_js (peopleInput s) = Fin r \<and> 1 \<le> r)"
proof -
  have "peopleInput s = [] \<Longrightarrow> Number_js (peopleInput s) = Fin 0"
    by (simp add: Number_js_def trimString_def)
  then show ?thesis
    by (cases "Number_js (peopleInput s)")
      (auto simp: peopleHasError_def peopleRaw_def coerceNumber_def Let_def)
qed

text \<open>
  Every state reached through the handlers holds the numeral of an integer of at least 1
  as its people text.
\<close>

lemma run_people_stored: "\<exists>k. 1 \<le> k \<and> peopleInput (run es) = natDigits k"
proof (induction es rule: rev_induct)
  case Nil
  show ?case
    by (intro exI [of _ "Suc 0"]) (simp add: run_def initial_state_def natDigits_1)
next
  case (snoc e es)
  then obtain k where k: "1 \<le> k" "peopleInput (run es) = natDigits k"
    by blast
  show ?case
  proof (cases e)
    case (PeopleChange v)
    then show ?thesis
      using onPeopleChange_stored [of v "run es"] by (simp add: run_snoc)
  next
    case PeopleBlur
    then show ?thesis
      using k onPeopleBlur_natDigits [OF k] by (auto simp: run_snoc)
  qed (use k in \<open>auto simp: run_snoc onBillChange_def onSelectPreset_def onCustomTipChange_def
        onRoundingModeChange_def Let_def\<close>)
qed

section \<open>The claims\<close>




text \<open>
  Claim C2. In the mode \<open>NONE\<close>, with the clamped bill \<open>b\<close> and the clamped tip percentage
  \<open>p\<close>, the derived tip is \<open>b * p / 100\<close> and the derived total is the bill plus the tip,
  both unrounded.
\<close>

theorem none_mode_exact:
  assumes "roundingMode s = NONE" and "billForCalc s = Fin b" and "tipPercentForCalc s = Fin p"
  shows "0 \<le> b \<and> 0 \<le> p
    \<and> tipAmount s = Fin (b * p / 100) \<and> totalAmount s = Fin (b + b * p / 100)
    \<and> tipAmount s = baseTipAmount s \<and> totalAmount s = baseTotalAmount s
    \<and> totalAmount s = js_add (billForCalc s) (tipAmount s)"
  using assms billForCalc_Fin_nonneg [OF assms(2)] tipPercentForCalc_Fin_nonneg [OF assms(3)]
  by (simp add: tipAmount_def totalAmount_def roundedAmounts_def baseTipAmount_Fin
      baseTotalAmount_Fin)

text \<open>The example of the text: a bill of 100 at 15 percent gives a tip of 15 and a total of 115.\<close>

theorem none_mode_exact_witness:
  "roundingMode (example_state ''100'' [] ''1'' NONE) = NONE
   \<and> billForCalc (example_state ''100'' [] ''1'' NONE) = Fin 100
   \<and> tipPercentForCalc (example_state ''100'' [] ''1'' NONE) = Fin 15
   \<and> tipAmount (example_state ''100'' [] ''1'' NONE) = Fin 15
   \<and> totalAmount (example_state ''100'' [] ''1'' NONE) = Fin 115"
proof -
  have m: "roundingMode (example_state ''100'' [] ''1'' NONE) = NONE"
    by (simp add: example_state_def)
  have b: "billForCalc (example_state ''100'' [] ''1'' NONE) = Fin 100"
    by code_simp
  have p: "tipPercentForCalc (example_state ''100'' [] ''1'' NONE) = Fin 15"
    by code_simp
  show ?thesis
    using none_mode_exact [OF m b p] m b p by simp
qed



text \<open>
  Claim C4, as amended. For every text typed into the people field, the edit handler changes
  the stored people text only: it stores \<open>1\<close> when the parsed number is not finite or not
  positive, and otherwise the floor of the number clamped to at least 1, converted to text.
  What it stores is always the text of an integer of at least 1, and parses back to that
  integer. The blur handler, given any value, resets the stored text to \<open>1\<close> when the parsed
  value is not finite or below 1, and otherwise leaves the state as it is: it does not floor.
  Blur after an edit therefore never changes the stored value, and neither does the same
  edit again. Parsing and conversion to text are those of \<open>Number\<close> and \<open>String\<close>: the
  statement is relative to them.
\<close>

theorem people_edit_then_blur:
  "peopleInput (handle s (PeopleChange raw)) =
     (case Number_js raw of
        Fin r \<Rightarrow> if r \<le> 0 then ''1'' else String_js (Fin (of_int (max 1 \<lfloor>r\<rfloor>)))
      | _ \<Rightarrow> ''1'')
   \<and> handle s (PeopleChange raw) = s\<lparr>peopleInput := peopleInput (handle s (PeopleChange raw))\<rparr>
   \<and> (\<exists>k. 1 \<le> k \<and> peopleInput (handle s (PeopleChange raw)) = String_js (Fin (of_int k))
        \<and> Number_js (peopleInput (handle s (PeopleChange raw))) = Fin (of_int k))
   \<and> onPeopleBlur (JString v) s =
       (case Number_js v of
          Fin r \<Rightarrow> if r < 1 then s\<lparr>peopleInput := ''1''\<rparr> else s
        | _ \<Rightarrow> s\<lparr>peopleInput := ''1''\<rparr>)
   \<and> handle (handle s (PeopleChange raw)) PeopleBlur = handle s (PeopleChange raw)
   \<and> handle (handle s (PeopleChange raw))
        (PeopleChange (peopleInput (handle s (PeopleChange raw)))) = handle s (PeopleChange raw)"
proof -
  obtain k where k: "1 \<le> k" "peopleInput (onPeopleChange (JString raw) s) = natDigits k"
    using onPeopleChange_stored by blast
  have same: "onPeopleChange (JString raw) s =
      s\<lparr>peopleInput := peopleInput (onPeopleChange (JString raw) s)\<rparr>"
    by (simp add: onPeopleChange_def Let_def)
  have "String_js (Fin (of_int (int k))) = natDigits k"
    using String_js_nat [of k] by simp
  with k have stored: "\<exists>j. 1 \<le> j
      \<and> peopleInput (onPeopleChange (JString raw) s) = String_js (Fin (of_int j))
      \<and> Number_js (peopleInput (onPeopleChange (JString raw) s)) = Fin (of_int j)"
    by (intro exI [of _ "int k"]) (simp add: Number_js_natDigits del: String_js.simps)
  have blur: "onPeopleBlur (JString v) s =
       (case Number_js v of
          Fin r \<Rightarrow> if r < 1 then s\<lparr>peopleInput := ''1''\<rparr> else s
        | _ \<Rightarrow> s\<lparr>peopleInput := ''1''\<rparr>)"
    by (cases "Number_js v") (simp_all add: onPeopleBlur_def)
  show ?thesis
    using same stored blur onPeopleBlur_natDigits [OF k] onPeopleChange_natDigits [OF k]
    by (simp add: onPeopleChange_peopleInput del: String_js.simps)
qed

text \<open>
  Typing 3.7 stores 3, and blur then changes nothing. The blur handler given 0.5, or a text
  that is not a number, stores 1; given 2.5 it leaves the stored 3.
\<close>

theorem people_edit_then_blur_witness:
  "peopleInput (handle initial_state (PeopleChange ''3.7'')) = ''3''
   \<and> handle (handle initial_state (PeopleChange ''3.7'')) PeopleBlur
       = handle initial_state (PeopleChange ''3.7'')
   \<and> peopleInput (onPeopleBlur (JString ''0.5'') (handle initial_state (PeopleChange ''3.7'')))
       = ''1''
   \<and> peopleInput (onPeopleBlur (JString ''abc'') (handle initial_state (PeopleChange ''3.7'')))
       = ''1''
   \<and> peopleInput (onPeopleBlur (JString ''2.5'') (handle initial_state (PeopleChange ''3.7'')))
       = ''3''"
proof -
  have n: "Number_js ''3.7'' = Fin (37 / 10)" "Number_js ''0.5'' = Fin (1 / 2)"
    "Number_js ''abc'' = NaN" "Number_js ''2.5'' = Fin (5 / 2)"
    by code_simp+
  have f: "\<lfloor>37 / 10 :: rat\<rfloor> = 3"
    by (simp add: floor_numeral_div)
  have d: "natDigits 3 = ''3''"
    by (simp add: natDigits.simps digitChar_def)
  have stored: "peopleInput (handle initial_state (PeopleChange ''3.7'')) = ''3''"
    using people_edit_then_blur [of initial_state "''3.7''" "''0.5''"]
    by (simp add: n f d)
  have after: "handle (handle initial_state (PeopleChange ''3.7'')) PeopleBlur
       = handle initial_state (PeopleChange ''3.7'')"
    using people_edit_then_blur [of initial_state "''3.7''" "''0.5''"] by blast
  have blur: "peopleInput (onPeopleBlur (JString ''0.5'')
        (handle initial_state (PeopleChange ''3.7''))) = ''1''"
    "peopleInput (onPeopleBlur (JString ''abc'')
        (handle initial_state (PeopleChange ''3.7''))) = ''1''"
    "peopleInput (onPeopleBlur (JString ''2.5'')
        (handle initial_state (PeopleChange ''3.7''))) = peopleInput (handle initial_state (PeopleChange ''3.7''))"
    using people_edit_then_blur [of "handle initial_state (PeopleChange ''3.7'')" "''3.7''" "''0.5''"]
      people_edit_then_blur [of "handle initial_state (PeopleChange ''3.7'')" "''3.7''" "''abc''"]
      people_edit_then_blur [of "handle initial_state (PeopleChange ''3.7'')" "''3.7''" "''2.5''"]
    by (simp_all add: n del: handle.simps)
  from stored after blur show ?thesis
    by (simp del: handle.simps)
qed

text \<open>
  Claim C4 as stated fails where it says that the blur handler re-validates the same way as
  the edit handler: given the value 2.5, the edit handler stores 2, while the blur handler
  leaves the stored text as it is, be it the initial 1 or the text 2.5 itself.
\<close>

theorem blur_unlike_edit_counterexample:
  "peopleInput (onPeopleChange (JString ''2.5'') initial_state) = ''2''
   \<and> peopleInput (onPeopleBlur (JString ''2.5'') initial_state) = ''1''
   \<and> peopleInput (handle (example_state [] [] ''2.5'' NONE) (PeopleChange ''2.5'')) = ''2''
   \<and> peopleInput (handle (example_state [] [] ''2.5'' NONE) PeopleBlur) = ''2.5''"
  by code_simp

text \<open>
  Claim C5. In every state reached from the initial render by events of the form, custom is
  active exactly when the custom text is not empty, and a preset is shown active exactly when
  custom is inactive and it is the last preset selected: so at most one tip source is active.
  Selecting a preset clears the custom text, makes that preset the active one and records it
  in the ref. Clearing the custom text makes the last preset selected the active one again.
  The ref always holds the last preset selected: no event other than the selection of a
  preset changes it.
\<close>

theorem tip_source_exclusive:
  assumes "\<forall>e\<in>set es. valid_event e"
  shows "(isCustomActive (run es) \<longleftrightarrow> customTipInput (run es) \<noteq> [])
    \<and> (pressed (run es) pct \<longleftrightarrow> \<not> isCustomActive (run es) \<and> pct = lastPreset es)
    \<and> lastPreset es \<in> set TIP_PRESETS
    \<and> customTipInput (handle (run es) (SelectPreset pct)) = []
    \<and> \<not> isCustomActive (handle (run es) (SelectPreset pct))
    \<and> pressed (handle (run es) (SelectPreset pct)) pct
    \<and> lastPresetTipRef (handle (run es) (SelectPreset pct)) = pct
    \<and> \<not> isCustomActive (handle (run es) (CustomTipChange []))
    \<and> pressed (handle (run es) (CustomTipChange [])) (lastPreset es)
    \<and> activeTipPercent (handle (run es) (CustomTipChange [])) = lastPreset es
    \<and> lastPresetTipRef (run es) = lastPreset es
    \<and> lastPresetTipRef (handle (run es) e) =
        (case e of SelectPreset q \<Rightarrow> q | _ \<Rightarrow> lastPresetTipRef (run es))"
proof -
  have mem: "lastPresetTipRef (run es) = lastPreset es" "selectedTip (run es) = lastPreset es"
    using run_memory [of es] by simp_all
  have "lastPreset es \<in> set TIP_PRESETS"
    using lastPreset_valid [OF assms] .
  moreover have "lastPresetTipRef (handle (run es) e) =
      (case e of SelectPreset q \<Rightarrow> q | _ \<Rightarrow> lastPresetTipRef (run es))"
    by (rule handle_lastPresetTipRef)
  ultimately show ?thesis
    using mem
    by (auto simp: isCustomActive_def pressed_def activeTipPercent_def onSelectPreset_def
        onCustomTipChange_def)
qed

text \<open>
  The scenario of the test suite: 18 percent is selected, then a custom 5 is typed, which
  becomes the active percentage with no preset pressed; clearing it brings 18 back.
\<close>

theorem tip_source_exclusive_witness:
  "valid_event (SelectPreset (Fin 18)) \<and> valid_event (CustomTipChange ''5'')
   \<and> isCustomActive (run [SelectPreset (Fin 18), CustomTipChange ''5''])
   \<and> \<not> pressed (run [SelectPreset (Fin 18), CustomTipChange ''5'']) (Fin 18)
   \<and> activeTipPercent (run [SelectPreset (Fin 18), CustomTipChange ''5'']) = Fin 5
   \<and> lastPreset [SelectPreset (Fin 18), CustomTipChange ''5''] = Fin 18
   \<and> pressed (handle (run [SelectPreset (Fin 18), CustomTipChange ''5''])
        (CustomTipChange [])) (Fin 18)
   \<and> activeTipPercent (handle (run [SelectPreset (Fin 18), CustomTipChange ''5''])
        (CustomTipChange [])) = Fin 18"
proof -
  have v: "\<forall>e\<in>set [SelectPreset (Fin 18), CustomTipChange ''5'']. valid_event e"
    by (simp add: TIP_PRESETS_def)
  have a: "isCustomActive (run [SelectPreset (Fin 18), CustomTipChange ''5''])"
    by code_simp
  have c: "activeTipPercent (run [SelectPreset (Fin 18), CustomTipChange ''5'']) = Fin 5"
    by code_simp
  have l: "lastPreset [SelectPreset (Fin 18), CustomTipChange ''5''] = Fin 18"
    by code_simp
  show ?thesis
    using tip_source_exclusive [OF v, of "Fin 18" "CustomTipChange []"] v a c l
    by simp
qed

text \<open>
  Claim C6. The clamped people count is an integer \<open>k\<close> of at least 1. The results panel
  shows the two per-person rows exactly when \<open>k\<close> is greater than 1, and the values in them
  are the overall tip and the overall total, as the memo of the rounding mode returns them,
  divided by \<open>k\<close>.
\<close>

theorem per_person_rows:
  "\<exists>k. 1 \<le> k \<and> peopleClamped s = Fin (of_int k)
     \<and> resultsPanel s =
         [(''Tip Amount'', formatCurrency (tipAmount s)),
          (''Total'', formatCurrency (totalAmount s))] @
         (if 1 < k then
            [(''Tip / person ('' @ natDigits (nat k) @ '')'',
              formatCurrency (js_div (tipAmount s) (Fin (of_int k)))),
             (''Total / person ('' @ natDigits (nat k) @ '')'',
              formatCurrency (js_div (totalAmount s) (Fin (of_int k))))]
          else [])
     \<and> perPersonTip s = js_div (fst (roundedAmounts s)) (Fin (of_int k))
     \<and> perPersonTotal s = js_div (snd (roundedAmounts s)) (Fin (of_int k))
     \<and> (tipAmount s = Fin t \<and> totalAmount s = Fin T \<longrightarrow>
          perPersonTip s = Fin (t / of_int k) \<and> perPersonTotal s = Fin (T / of_int k))"
proof -
  obtain k where k: "1 \<le> k" "peopleClamped s = Fin (of_int k)"
    using peopleClamped_int by blast
  have "String_js (Fin (of_int k)) = natDigits (nat k)"
    using k(1) by (intro String_js_int) simp
  then have "resultsPanel s =
         [(''Tip Amount'', formatCurrency (tipAmount s)),
          (''Total'', formatCurrency (totalAmount s))] @
         (if 1 < k then
            [(''Tip / person ('' @ natDigits (nat k) @ '')'',
              formatCurrency (js_div (tipAmount s) (Fin (of_int k)))),
             (''Total / person ('' @ natDigits (nat k) @ '')'',
              formatCurrency (js_div (totalAmount s) (Fin (of_int k))))]
          else [])"
    by (simp add: resultsPanel_def k(2) js_gt_int perPersonTip_def perPersonTotal_def
        del: String_js.simps)
  moreover have "perPersonTip s = js_div (fst (roundedAmounts s)) (Fin (of_int k))"
    "perPersonTotal s = js_div (snd (roundedAmounts s)) (Fin (of_int k))"
    by (simp_all add: perPersonTip_def perPersonTotal_def tipAmount_def totalAmount_def k(2))
  moreover have "tipAmount s = Fin t \<and> totalAmount s = Fin T \<longrightarrow>
          perPersonTip s = Fin (t / of_int k) \<and> perPersonTotal s = Fin (T / of_int k)"
    using k by (simp add: perPersonTip_def perPersonTotal_def)
  ultimately show ?thesis
    using k by blast
qed

text \<open>
  The example of the test suite: a bill of 33 at 15 percent for two people, rounding the
  total. The overall values are 5 and 38, the per-person values 2.50 and 19.00 (the base tip
  4.95 would give 2.48). With one person the per-person rows are absent.
\<close>

theorem per_person_rows_witness:
  "tipAmount (example_state ''33'' [] ''2'' TOTAL) = Fin 5
   \<and> totalAmount (example_state ''33'' [] ''2'' TOTAL) = Fin 38
   \<and> peopleClamped (example_state ''33'' [] ''2'' TOTAL) = Fin 2
   \<and> perPersonTip (example_state ''33'' [] ''2'' TOTAL) = Fin (5 / 2)
   \<and> perPersonTotal (example_state ''33'' [] ''2'' TOTAL) = Fin 19
   \<and> resultsPanel (example_state ''33'' [] ''2'' TOTAL) =
       [(''Tip Amount'', ''$5.00''), (''Total'', ''$38.00''),
        (''Tip / person (2)'', ''$2.50''), (''Total / person (2)'', ''$19.00'')]
   \<and> resultsPanel (example_state ''33'' [] ''1'' TOTAL) =
       [(''Tip Amount'', ''$5.00''), (''Total'', ''$38.00'')]"
proof -
  have v: "tipAmount (example_state ''33'' [] ''2'' TOTAL) = Fin 5"
    "totalAmount (example_state ''33'' [] ''2'' TOTAL) = Fin 38"
    by code_simp+
  have k: "peopleClamped (example_state ''33'' [] ''2'' TOTAL) = Fin 2"
    by code_simp
  have v1: "tipAmount (example_state ''33'' [] ''1'' TOTAL) = Fin 5"
    "totalAmount (example_state ''33'' [] ''1'' TOTAL) = Fin 38"
    by code_simp+
  have k1: "peopleClamped (example_state ''33'' [] ''1'' TOTAL) = Fin 1"
    by code_simp
  obtain j where j: "peopleClamped (example_state ''33'' [] ''2'' TOTAL) = Fin (of_int j)"
    "tipAmount (example_state ''33'' [] ''2'' TOTAL) = Fin 5
       \<and> totalAmount (example_state ''33'' [] ''2'' TOTAL) = Fin 38 \<longrightarrow>
     perPersonTip (example_state ''33'' [] ''2'' TOTAL) = Fin (5 / of_int j)
       \<and> perPersonTotal (example_state ''33'' [] ''2'' TOTAL) = Fin (38 / of_int j)"
    using per_person_rows [of "example_state ''33'' [] ''2'' TOTAL" 5 38] by blast
  from j(1) k have "rat_of_int j = 2" by simp
  with j(2) v have pp: "perPersonTip (example_state ''33'' [] ''2'' TOTAL) = Fin (5 / 2)"
    "perPersonTotal (example_state ''33'' [] ''2'' TOTAL) = Fin 19"
    by simp_all
  have n: "String_js (Fin 2) = ''2''"
    by (simp add: natDigits.simps digitChar_def)
  have f: "formatCurrency (Fin 5) = ''$5.00''" "formatCurrency (Fin 38) = ''$38.00''"
    "formatCurrency (Fin (5 / 2)) = ''$2.50''" "formatCurrency (Fin 19) = ''$19.00''"
    by (simp_all add: formatCurrency_eval)
  have r: "resultsPanel (example_state ''33'' [] ''2'' TOTAL) =
       [(''Tip Amount'', ''$5.00''), (''Total'', ''$38.00''),
        (''Tip / person (2)'', ''$2.50''), (''Total / person (2)'', ''$19.00'')]"
    unfolding resultsPanel_def v k pp n f by (simp add: js_gt_def)
  have r1: "resultsPanel (example_state ''33'' [] ''1'' TOTAL) =
       [(''Tip Amount'', ''$5.00''), (''Total'', ''$38.00'')]"
    unfolding resultsPanel_def v1 k1 f by (simp add: js_gt_def)
  from v k pp r r1 show ?thesis by simp
qed



text \<open>
  Claim C8. Whatever the three texts and the rounding mode, with any of the presets selected,
  the tip amount, the total amount, the tip per person and the total per person are not
  negative.
\<close>

theorem derived_values_nonneg:
  assumes "selectedTip s \<in> set TIP_PRESETS"
  shows "js_le (Fin 0) (tipAmount s) \<and> js_le (Fin 0) (totalAmount s)
    \<and> js_le (Fin 0) (perPersonTip s) \<and> js_le (Fin 0) (perPersonTotal s)"
proof -
  obtain t T k where *: "0 \<le> t" "0 \<le> T" "1 \<le> k" "tipAmount s = Fin t" "totalAmount s = Fin T"
    "perPersonTip s = Fin (t / of_int k)" "perPersonTotal s = Fin (T / of_int k)"
    using derived_Fin [OF presets_finite [OF assms]] by blast
  then have "0 \<le> t / of_int k" "0 \<le> T / of_int k" by simp_all
  with * show ?thesis by (simp add: js_le_Fin del: js_le.simps)
qed

theorem derived_values_nonneg_witness:
  "selectedTip (example_state ''-10'' ''-5'' ''abc'' TOTAL) \<in> set TIP_PRESETS
   \<and> js_le (Fin 0) (tipAmount (example_state ''-10'' ''-5'' ''abc'' TOTAL))
   \<and> js_le (Fin 0) (totalAmount (example_state ''-10'' ''-5'' ''abc'' TOTAL))
   \<and> js_le (Fin 0) (perPersonTip (example_state ''-10'' ''-5'' ''abc'' TOTAL))
   \<and> js_le (Fin 0) (perPersonTotal (example_state ''-10'' ''-5'' ''abc'' TOTAL))"
proof -
  have h: "selectedTip (example_state ''-10'' ''-5'' ''abc'' TOTAL) \<in> set TIP_PRESETS"
    by (simp add: example_state_def TIP_PRESETS_def)
  show ?thesis
    using derived_values_nonneg [OF h] h by simp
qed

text \<open>
  Claim C9, where the program departs from it. The people flag is computed from the stored
  people text, and the edit handler normalises what is typed before it stores it. So the flag
  is raised in no state reached from the initial render, whatever the events: typing 0, or a
  text that is not a number, stores 1 and leaves the flag down, although a state that held
  the text 0 would raise it.
\<close>

theorem people_flag_never_raised:
  "\<not> peopleHasError (run es)
   \<and> peopleInput (run [PeopleChange ''0'']) = ''1''
   \<and> \<not> peopleHasError (run [PeopleChange ''0''])
   \<and> peopleInput (run [PeopleChange ''abc'']) = ''1''
   \<and> \<not> peopleHasError (run [PeopleChange ''abc''])
   \<and> peopleHasError (initial_state\<lparr>peopleInput := ''0''\<rparr>)"
proof -
  have never: "\<not> peopleHasError (run es)" for es
  proof -
    obtain k where k: "1 \<le> k" "peopleInput (run es) = natDigits k"
      using run_people_stored by blast
    then have "Number_js (peopleInput (run es)) = Fin (of_nat k)"
      by (simp add: Number_js_natDigits)
    with k(1) show ?thesis
      by (simp add: peopleHasError_iff)
  qed
  have zero: "peopleInput (run [PeopleChange ''0'']) = ''1''"
    by code_simp
  have nan: "peopleInput (run [PeopleChange ''abc'']) = ''1''"
    by code_simp
  have raised: "peopleHasError (initial_state\<lparr>peopleInput := ''0''\<rparr>)"
    by code_simp
  from never zero nan raised show ?thesis
    by blast
qed

text \<open>
  Claim C10. In every rounding mode the derived total is the clamped bill plus the derived
  tip. In the mode \<open>TOTAL\<close>, when the rounded base total is below the bill, the tip is
  floored at 0 and the total is the bill itself, which is not the rounded base total.
\<close>

theorem total_is_bill_plus_tip:
  "totalAmount s = js_add (billForCalc s) (tipAmount s)
   \<and> (roundingMode s = TOTAL
        \<and> js_lt (js_sub (roundToWholeCurrency (baseTotalAmount s)) (billForCalc s)) (Fin 0)
      \<longrightarrow> tipAmount s = Fin 0 \<and> totalAmount s = billForCalc s
          \<and> totalAmount s \<noteq> roundToWholeCurrency (baseTotalAmount s))"
proof -
  obtain b where b: "billForCalc s = Fin b"
    using billForCalc_nonneg by blast
  obtain k where k: "roundToWholeCurrency (baseTotalAmount s) = Fin (of_int k)"
    using roundToWholeCurrency_finite by blast
  have sum: "totalAmount s = js_add (billForCalc s) (tipAmount s)"
    by (simp add: tipAmount_def totalAmount_def roundedAmounts_def baseTotalAmount_def Let_def)
  have "tipAmount s = Fin 0 \<and> totalAmount s = billForCalc s
      \<and> totalAmount s \<noteq> roundToWholeCurrency (baseTotalAmount s)"
    if "roundingMode s = TOTAL"
      and "js_lt (js_sub (roundToWholeCurrency (baseTotalAmount s)) (billForCalc s)) (Fin 0)"
  proof -
    from that(2) have lt: "of_int k < b"
      by (simp add: b k js_sub_def)
    then have "tipAmount s = Fin 0"
      using that(1) by (simp add: tipAmount_def roundedAmounts_def Let_def b k js_sub_def)
    with sum lt show ?thesis
      by (simp add: b k)
  qed
  with sum show ?thesis by blast
qed

theorem total_is_bill_plus_tip_witness:
  "roundingMode (example_state ''10.3'' ''1'' ''1'' TOTAL) = TOTAL
   \<and> js_lt (js_sub (roundToWholeCurrency (baseTotalAmount (example_state ''10.3'' ''1'' ''1'' TOTAL)))
        (billForCalc (example_state ''10.3'' ''1'' ''1'' TOTAL))) (Fin 0)
   \<and> tipAmount (example_state ''10.3'' ''1'' ''1'' TOTAL) = Fin 0
   \<and> totalAmount (example_state ''10.3'' ''1'' ''1'' TOTAL)
       = billForCalc (example_state ''10.3'' ''1'' ''1'' TOTAL)
   \<and> formatCurrency (totalAmount (example_state ''10.3'' ''1'' ''1'' TOTAL)) = ''$10.30''"
proof -
  have m: "roundingMode (example_state ''10.3'' ''1'' ''1'' TOTAL) = TOTAL"
    by (simp add: example_state_def)
  have f: "js_lt (js_sub (roundToWholeCurrency (baseTotalAmount (example_state ''10.3'' ''1'' ''1'' TOTAL)))
        (billForCalc (example_state ''10.3'' ''1'' ''1'' TOTAL))) (Fin 0)"
    by code_simp
  have b: "billForCalc (example_state ''10.3'' ''1'' ''1'' TOTAL) = Fin (103 / 10)"
    by code_simp
  have c: "formatCurrency (billForCalc (example_state ''10.3'' ''1'' ''1'' TOTAL)) = ''$10.30''"
    unfolding b by (simp add: formatCurrency_eval)
  have r: "tipAmount (example_state ''10.3'' ''1'' ''1'' TOTAL) = Fin 0
      \<and> totalAmount (example_state ''10.3'' ''1'' ''1'' TOTAL)
          = billForCalc (example_state ''10.3'' ''1'' ''1'' TOTAL)"
    using total_is_bill_plus_tip [of "example_state ''10.3'' ''1'' ''1'' TOTAL"] m f by blast
  show ?thesis
    using m f c by (simp add: r)
qed

end
